theory Spec2Isabelle
  imports Main
begin

section \<open>The request handler of games/Server.py\<close>

text \<open>
  The repository is one class, \<^verbatim>\<open>BrotliGzipHTTPRequestHandler\<close>, which overrides one
  method, \<^verbatim>\<open>end_headers\<close>, of Python's \<^verbatim>\<open>http.server.SimpleHTTPRequestHandler\<close>. The
  method reads \<^verbatim>\<open>self.path\<close>, calls the inherited \<^verbatim>\<open>send_header\<close> zero, one or two
  times and then calls the parent's \<^verbatim>\<open>end_headers\<close>.

  The request line is decoded as ISO-8859-1, so every character of \<^verbatim>\<open>self.path\<close> is one
  byte: the path is a \<^typ>\<open>string\<close>.
\<close>

subsection \<open>Data\<close>

text \<open>
  The handler object, as far as the method and the two inherited methods it calls read or
  write it. \<^verbatim>\<open>self.path\<close> is an instance attribute that the request parser assigns; before
  that it does not exist, which is \<open>None\<close> here. \<open>status\<close>, \<open>headers_buffer\<close> and \<open>body\<close> are
  the response the underlying handler is building: its status code, the headers queued so
  far (in order) and the body bytes.
\<close>

record handler =
  path :: "string option"
  request_version :: string
  close_connection :: bool
  status :: nat
  headers_buffer :: "(string \<times> string) list"
  body :: string

text \<open>Reading an attribute that was never assigned raises \<^verbatim>\<open>AttributeError\<close>.\<close>

datatype error = AttributeError

text \<open>The calls the method makes on the handler, in the order it makes them.\<close>

datatype call = Send_Header string string | Super_End_Headers

subsection \<open>Python's str.endswith\<close>

text \<open>
  \<^verbatim>\<open>s.endswith(suffix)\<close> compares the last \<^verbatim>\<open>len(suffix)\<close> characters of \<^verbatim>\<open>s\<close> with
  \<^verbatim>\<open>suffix\<close>, character by character, and is false when \<^verbatim>\<open>s\<close> is shorter. It never raises.
\<close>

definition endswith :: "string \<Rightarrow> string \<Rightarrow> bool" where
  "endswith s suffix =
     (length suffix \<le> length s \<and> drop (length s - length suffix) s = suffix)"

subsection \<open>The overriding method\<close>

text \<open>
  \<^verbatim>\<open>BrotliGzipHTTPRequestHandler.end_headers\<close> (Server.py, lines 7 to 32): the result is
  the sequence of calls it makes, or the exception raised by the first read of
  \<^verbatim>\<open>self.path\<close>.
\<close>

definition end_headers :: "handler \<Rightarrow> error + call list" where
  "end_headers self =
     (case path self of
        None \<Rightarrow> Inl AttributeError
      | Some p \<Rightarrow>
          Inr
           ((if endswith p ''.br'' then
               Send_Header ''Content-Encoding'' ''br'' #
               (if endswith p ''.js.br'' then
                  [Send_Header ''Content-Type'' ''application/javascript'']
                else if endswith p ''.wasm.br'' then
                  [Send_Header ''Content-Type'' ''application/wasm'']
                else if endswith p ''.data.br'' then
                  [Send_Header ''Content-Type'' ''application/octet-stream'']
                else if endswith p ''.json.br'' then
                  [Send_Header ''Content-Type'' ''application/json'']
                else [])
             else if endswith p ''.gz'' then
               Send_Header ''Content-Encoding'' ''gzip'' #
               (if endswith p ''.js.gz'' then
                  [Send_Header ''Content-Type'' ''application/javascript'']
                else if endswith p ''.wasm.gz'' then
                  [Send_Header ''Content-Type'' ''application/wasm'']
                else if endswith p ''.data.gz'' then
                  [Send_Header ''Content-Type'' ''application/octet-stream'']
                else if endswith p ''.json.gz'' then
                  [Send_Header ''Content-Type'' ''application/json'']
                else [])
             else [])
            @ [Super_End_Headers]))"

subsection \<open>Reading a sequence of calls\<close>

text \<open>The (name, value) pairs passed to \<^verbatim>\<open>send_header\<close>, in order.\<close>

fun sent_headers :: "call list \<Rightarrow> (string \<times> string) list" where
  "sent_headers [] = []"
| "sent_headers (Send_Header keyword val # cs) = (keyword, val) # sent_headers cs"
| "sent_headers (Super_End_Headers # cs) = sent_headers cs"

text \<open>The values sent under one header name, in order.\<close>

definition header_values :: "string \<Rightarrow> call list \<Rightarrow> string list" where
  "header_values keyword cs = map snd (filter (\<lambda>kv. fst kv = keyword) (sent_headers cs))"

subsection \<open>The inherited methods\<close>

text \<open>
  \<^verbatim>\<open>str.lower\<close> on a string of one-byte characters: the letters A to Z and the capital
  letters of Latin-1 (192 to 222, without the multiplication sign 215) move up by 32.
\<close>

definition lower_char :: "char \<Rightarrow> char" where
  "lower_char c =
     (let n = (of_char c :: nat)
      in if (65 \<le> n \<and> n \<le> 90) \<or> (192 \<le> n \<and> n \<le> 222 \<and> n \<noteq> 215)
         then char_of (n + 32) else c)"

definition lower :: "string \<Rightarrow> string" where
  "lower s = map lower_char s"

text \<open>
  \<^verbatim>\<open>BaseHTTPRequestHandler.send_header\<close> of the standard library, which is not part of
  the repository: it queues the header unless the request is HTTP/0.9, and a header named
  Connection (in any letter case) also sets the keep-alive flag.
\<close>

definition send_header :: "string \<Rightarrow> string \<Rightarrow> handler \<Rightarrow> handler" where
  "send_header keyword val self =
     (let self1 =
            (if request_version self \<noteq> ''HTTP/0.9''
             then self\<lparr>headers_buffer := headers_buffer self @ [(keyword, val)]\<rparr>
             else self)
      in if lower keyword = ''connection'' then
           (if lower val = ''close'' then self1\<lparr>close_connection := True\<rparr>
            else if lower val = ''keep-alive'' then self1\<lparr>close_connection := False\<rparr>
            else self1)
         else self1)"

text \<open>
  Carrying out the calls on a handler. The parent's \<^verbatim>\<open>end_headers\<close> is a parameter: the
  method hands the handler over to it, whatever it does.
\<close>

fun exec_call :: "(handler \<Rightarrow> handler) \<Rightarrow> call \<Rightarrow> handler \<Rightarrow> handler" where
  "exec_call super_end_headers (Send_Header keyword val) self = send_header keyword val self"
| "exec_call super_end_headers Super_End_Headers self = super_end_headers self"

definition run_calls :: "(handler \<Rightarrow> handler) \<Rightarrow> call list \<Rightarrow> handler \<Rightarrow> handler" where
  "run_calls super_end_headers cs self = fold (exec_call super_end_headers) cs self"

subsection \<open>Sample handlers\<close>

text \<open>
  A handler in the middle of a response to an HTTP/1.1 request for \<open>target\<close>: the underlying
  handler has set the status code and queued its own headers, and now finalizes them.
\<close>

definition serving :: "string \<Rightarrow> nat \<Rightarrow> handler" where
  "serving target code =
     \<lparr>path = Some target, request_version = ''HTTP/1.1'', close_connection = False,
      status = code,
      headers_buffer =
        [(''Server'', ''SimpleHTTP/0.6 Python/3.12''),
         (''Content-type'', ''application/octet-stream''),
         (''Content-Length'', ''5'')],
      body = ''''\<rparr>"

text \<open>
  A handler whose request the parent rejects while it parses the request line, before it
  assigns \<^verbatim>\<open>self.path\<close>: a request line of one word (400), an unknown protocol version
  such as \<^verbatim>\<open>GET /x.br HTTP/2.0\<close> (505), or a line that is too long (414). The parent's
  \<^verbatim>\<open>send_error\<close> then finalizes the error response through \<^verbatim>\<open>end_headers\<close>. The protocol
  version is still the default HTTP/0.9, so nothing is queued, and the connection is
  marked to be closed.
\<close>

definition rejecting :: "nat \<Rightarrow> handler" where
  "rejecting code =
     \<lparr>path = None, request_version = ''HTTP/0.9'', close_connection = True,
      status = code, headers_buffer = [], body = ''''\<rparr>"

text \<open>
  How often an invocation reached the parent's \<^verbatim>\<open>end_headers\<close>. The method raises only at
  its first statement, before any call, so an invocation that raised reached it not at all.
\<close>

definition parent_calls :: "error + call list \<Rightarrow> nat" where
  "parent_calls r = (case r of Inl e \<Rightarrow> 0 | Inr cs \<Rightarrow> count_list cs Super_End_Headers)"

text \<open>
  The calls the method makes before it hands over to the parent: \<^verbatim>\<open>send_header\<close> with one of
  the two header names of the source.
\<close>

definition content_send :: "call \<Rightarrow> bool" where
  "content_send c =
     (case c of
        Send_Header keyword val \<Rightarrow> keyword = ''Content-Encoding'' \<or> keyword = ''Content-Type''
      | Super_End_Headers \<Rightarrow> False)"

section \<open>Suffix tests\<close>

lemma endswith_iff: "endswith s suffix \<longleftrightarrow> (\<exists>pre. s = pre @ suffix)"
proof
  assume "endswith s suffix"
  then have "s = take (length s - length suffix) s @ suffix"
    by (metis append_take_drop_id endswith_def)
  then show "\<exists>pre. s = pre @ suffix" ..
next
  assume "\<exists>pre. s = pre @ suffix"
  then show "endswith s suffix"
    by (auto simp: endswith_def)
qed

lemma endswith_rev: "endswith s t \<longleftrightarrow> take (length t) (rev s) = rev t"
proof
  assume "endswith s t"
  then obtain pre where "s = pre @ t" by (auto simp: endswith_iff)
  then show "take (length t) (rev s) = rev t" by simp
next
  assume a: "take (length t) (rev s) = rev t"
  have "rev s = take (length t) (rev s) @ drop (length t) (rev s)" by simp
  with a have "rev s = rev t @ drop (length t) (rev s)" by simp
  then have "rev (rev s) = rev (rev t @ drop (length t) (rev s))" by simp
  then have "s = rev (drop (length t) (rev s)) @ t" by simp
  then show "endswith s t" unfolding endswith_iff ..
qed

lemma endswith_trans: "endswith s (a @ b) \<Longrightarrow> endswith s b"
  by (auto simp: endswith_iff)

lemma br_not_gz: "endswith p ''.br'' \<Longrightarrow> \<not> endswith p ''.gz''"
  by (auto simp: endswith_iff)

subsection \<open>The calls for each suffix\<close>

lemma calls_js_br:
  "path self = Some p \<Longrightarrow> endswith p ''.js.br'' \<Longrightarrow>
   end_headers self = Inr [Send_Header ''Content-Encoding'' ''br'',
     Send_Header ''Content-Type'' ''application/javascript'', Super_End_Headers]"
  by (auto simp: endswith_iff) (simp add: end_headers_def endswith_rev)

lemma calls_wasm_br:
  "path self = Some p \<Longrightarrow> endswith p ''.wasm.br'' \<Longrightarrow>
   end_headers self = Inr [Send_Header ''Content-Encoding'' ''br'',
     Send_Header ''Content-Type'' ''application/wasm'', Super_End_Headers]"
  by (auto simp: endswith_iff) (simp add: end_headers_def endswith_rev)

lemma calls_data_br:
  "path self = Some p \<Longrightarrow> endswith p ''.data.br'' \<Longrightarrow>
   end_headers self = Inr [Send_Header ''Content-Encoding'' ''br'',
     Send_Header ''Content-Type'' ''application/octet-stream'', Super_End_Headers]"
  by (auto simp: endswith_iff) (simp add: end_headers_def endswith_rev)

lemma calls_json_br:
  "path self = Some p \<Longrightarrow> endswith p ''.json.br'' \<Longrightarrow>
   end_headers self = Inr [Send_Header ''Content-Encoding'' ''br'',
     Send_Header ''Content-Type'' ''application/json'', Super_End_Headers]"
  by (auto simp: endswith_iff) (simp add: end_headers_def endswith_rev)

lemma calls_js_gz:
  "path self = Some p \<Longrightarrow> endswith p ''.js.gz'' \<Longrightarrow>
   end_headers self = Inr [Send_Header ''Content-Encoding'' ''gzip'',
     Send_Header ''Content-Type'' ''application/javascript'', Super_End_Headers]"
  by (auto simp: endswith_iff) (simp add: end_headers_def endswith_rev)

lemma calls_wasm_gz:
  "path self = Some p \<Longrightarrow> endswith p ''.wasm.gz'' \<Longrightarrow>
   end_headers self = Inr [Send_Header ''Content-Encoding'' ''gzip'',
     Send_Header ''Content-Type'' ''application/wasm'', Super_End_Headers]"
  by (auto simp: endswith_iff) (simp add: end_headers_def endswith_rev)

lemma calls_data_gz:
  "path self = Some p \<Longrightarrow> endswith p ''.data.gz'' \<Longrightarrow>
   end_headers self = Inr [Send_Header ''Content-Encoding'' ''gzip'',
     Send_Header ''Content-Type'' ''application/octet-stream'', Super_End_Headers]"
  by (auto simp: endswith_iff) (simp add: end_headers_def endswith_rev)

lemma calls_json_gz:
  "path self = Some p \<Longrightarrow> endswith p ''.json.gz'' \<Longrightarrow>
   end_headers self = Inr [Send_Header ''Content-Encoding'' ''gzip'',
     Send_Header ''Content-Type'' ''application/json'', Super_End_Headers]"
  by (auto simp: endswith_iff) (simp add: end_headers_def endswith_rev)

lemma calls_plain_br:
  "path self = Some p \<Longrightarrow> endswith p ''.br'' \<Longrightarrow>
   \<not> endswith p ''.js.br'' \<Longrightarrow> \<not> endswith p ''.wasm.br'' \<Longrightarrow>
   \<not> endswith p ''.data.br'' \<Longrightarrow> \<not> endswith p ''.json.br'' \<Longrightarrow>
   end_headers self = Inr [Send_Header ''Content-Encoding'' ''br'', Super_End_Headers]"
  by (simp add: end_headers_def)

lemma calls_plain_gz:
  "path self = Some p \<Longrightarrow> endswith p ''.gz'' \<Longrightarrow>
   \<not> endswith p ''.js.gz'' \<Longrightarrow> \<not> endswith p ''.wasm.gz'' \<Longrightarrow>
   \<not> endswith p ''.data.gz'' \<Longrightarrow> \<not> endswith p ''.json.gz'' \<Longrightarrow>
   end_headers self = Inr [Send_Header ''Content-Encoding'' ''gzip'', Super_End_Headers]"
  using br_not_gz [of p] by (auto simp: end_headers_def)

lemma calls_other:
  "path self = Some p \<Longrightarrow> \<not> endswith p ''.br'' \<Longrightarrow> \<not> endswith p ''.gz'' \<Longrightarrow>
   end_headers self = Inr [Super_End_Headers]"
  by (simp add: end_headers_def)

lemma encoding_br:
  "path self = Some p \<Longrightarrow> endswith p ''.br'' \<Longrightarrow>
   \<exists>cs. end_headers self = Inr cs \<and> header_values ''Content-Encoding'' cs = [''br'']"
  by (simp add: end_headers_def header_values_def)

lemma encoding_gz:
  "path self = Some p \<Longrightarrow> endswith p ''.gz'' \<Longrightarrow>
   \<exists>cs. end_headers self = Inr cs \<and> header_values ''Content-Encoding'' cs = [''gzip'']"
  using br_not_gz [of p] by (auto simp: end_headers_def header_values_def)

subsection \<open>Carrying out the calls\<close>

lemma lower_content_keywords:
  "lower ''Content-Encoding'' \<noteq> ''connection''"
  "lower ''Content-Type'' \<noteq> ''connection''"
  by (simp_all add: lower_def)

lemma send_header_queue:
  "lower keyword \<noteq> ''connection'' \<Longrightarrow>
   send_header keyword val self =
     self\<lparr>headers_buffer := headers_buffer self @
        (if request_version self \<noteq> ''HTTP/0.9'' then [(keyword, val)] else [])\<rparr>"
  by (simp add: send_header_def)

lemma run_content_sends:
  "list_all content_send sends \<Longrightarrow>
   run_calls parent sends self =
     self\<lparr>headers_buffer := headers_buffer self @
        (if request_version self \<noteq> ''HTTP/0.9'' then sent_headers sends else [])\<rparr>"
proof (induction sends arbitrary: self)
  case Nil
  then show ?case by (simp add: run_calls_def)
next
  case (Cons c sends)
  from Cons.prems obtain keyword val where c: "c = Send_Header keyword val"
    and kw: "keyword = ''Content-Encoding'' \<or> keyword = ''Content-Type''"
    by (auto simp: content_send_def split: call.splits)
  from kw have low: "lower keyword \<noteq> ''connection''"
    using lower_content_keywords by auto
  from Cons.prems have rest: "list_all content_send sends" by simp
  have "run_calls parent (c # sends) self = run_calls parent sends (send_header keyword val self)"
    by (simp add: run_calls_def c)
  then show ?case
    by (simp add: Cons.IH [OF rest] send_header_queue [OF low] c)
qed

lemma run_calls_snoc:
  "run_calls parent (sends @ [Super_End_Headers]) self = parent (run_calls parent sends self)"
  by (simp add: run_calls_def)

lemma end_headers_shape:
  assumes "path self = Some p"
  shows "\<exists>sends. end_headers self = Inr (sends @ [Super_End_Headers]) \<and>
            list_all content_send sends"
  using assms by (simp add: end_headers_def content_send_def)

lemma content_sends_no_super: "list_all content_send sends \<Longrightarrow> Super_End_Headers \<notin> set sends"
  by (induction sends) (auto simp: content_send_def)

lemma end_headers_path_only: "path h1 = path h2 \<Longrightarrow> end_headers h1 = end_headers h2"
  by (simp add: end_headers_def)

section \<open>Content-Encoding\<close>

text \<open>
  Claim C1. When the path ends with \<^verbatim>\<open>.br\<close> the method sends Content-Encoding once, with
  value \<^verbatim>\<open>br\<close>; when it ends with \<^verbatim>\<open>.gz\<close> (which excludes \<^verbatim>\<open>.br\<close>) it sends it once with
  value \<^verbatim>\<open>gzip\<close>. The comparison is exact and case-sensitive: a path ending in \<^verbatim>\<open>.BR\<close>, or
  in any other spelling with a capital letter, takes neither branch and no header is sent.
\<close>

theorem content_encoding_by_suffix:
  assumes "path self = Some p"
  shows "(endswith p ''.br'' \<longrightarrow>
            (\<exists>cs. end_headers self = Inr cs \<and> header_values ''Content-Encoding'' cs = [''br'']))
       \<and> (endswith p ''.gz'' \<longrightarrow>
            (\<exists>cs. end_headers self = Inr cs \<and> header_values ''Content-Encoding'' cs = [''gzip'']))
       \<and> (endswith p ''.BR'' \<or> endswith p ''.Br'' \<or> endswith p ''.bR'' \<or>
          endswith p ''.GZ'' \<or> endswith p ''.Gz'' \<or> endswith p ''.gZ'' \<longrightarrow>
            end_headers self = Inr [Super_End_Headers])"
proof (intro conjI impI)
  assume "endswith p ''.br''"
  with assms show "\<exists>cs. end_headers self = Inr cs \<and> header_values ''Content-Encoding'' cs = [''br'']"
    by (rule encoding_br)
next
  assume "endswith p ''.gz''"
  with assms show "\<exists>cs. end_headers self = Inr cs \<and> header_values ''Content-Encoding'' cs = [''gzip'']"
    by (rule encoding_gz)
next
  assume "endswith p ''.BR'' \<or> endswith p ''.Br'' \<or> endswith p ''.bR'' \<or>
          endswith p ''.GZ'' \<or> endswith p ''.Gz'' \<or> endswith p ''.gZ''"
  then have "\<not> endswith p ''.br'' \<and> \<not> endswith p ''.gz''"
    by (auto simp: endswith_iff)
  with assms show "end_headers self = Inr [Super_End_Headers]"
    by (simp add: calls_other)
qed

theorem content_encoding_by_suffix_witness:
  "(\<exists>cs. end_headers (serving ''/game.wasm.br'' 200) = Inr cs \<and>
         header_values ''Content-Encoding'' cs = [''br''])
   \<and> (\<exists>cs. end_headers (serving ''/game.data.gz'' 200) = Inr cs \<and>
         header_values ''Content-Encoding'' cs = [''gzip''])
   \<and> endswith ''/GAME.JS.BR'' ''.BR''
   \<and> end_headers (serving ''/GAME.JS.BR'' 200) = Inr [Super_End_Headers]"
  using content_encoding_by_suffix [of "serving ''/game.wasm.br'' 200" "''/game.wasm.br''"]
    content_encoding_by_suffix [of "serving ''/game.data.gz'' 200" "''/game.data.gz''"]
    content_encoding_by_suffix [of "serving ''/GAME.JS.BR'' 200" "''/GAME.JS.BR''"]
  by (simp add: serving_def endswith_def)

section \<open>Content-Type\<close>

text \<open>
  Claim C2. For a path ending in \<^verbatim>\<open>.js.br\<close> or \<^verbatim>\<open>.js.gz\<close> the method sends Content-Type
  once, with value exactly \<^verbatim>\<open>application/javascript\<close>; for \<^verbatim>\<open>.wasm.br\<close> and \<^verbatim>\<open>.wasm.gz\<close>
  exactly \<^verbatim>\<open>application/wasm\<close>; for \<^verbatim>\<open>.data.br\<close> and \<^verbatim>\<open>.data.gz\<close> exactly
  \<^verbatim>\<open>application/octet-stream\<close>; for \<^verbatim>\<open>.json.br\<close> and \<^verbatim>\<open>.json.gz\<close> exactly
  \<^verbatim>\<open>application/json\<close>.
\<close>

theorem content_type_by_suffix:
  assumes "path self = Some p"
  shows "(endswith p ''.js.br'' \<or> endswith p ''.js.gz'' \<longrightarrow>
           (\<exists>cs. end_headers self = Inr cs \<and>
                 header_values ''Content-Type'' cs = [''application/javascript'']))
       \<and> (endswith p ''.wasm.br'' \<or> endswith p ''.wasm.gz'' \<longrightarrow>
           (\<exists>cs. end_headers self = Inr cs \<and>
                 header_values ''Content-Type'' cs = [''application/wasm'']))
       \<and> (endswith p ''.data.br'' \<or> endswith p ''.data.gz'' \<longrightarrow>
           (\<exists>cs. end_headers self = Inr cs \<and>
                 header_values ''Content-Type'' cs = [''application/octet-stream'']))
       \<and> (endswith p ''.json.br'' \<or> endswith p ''.json.gz'' \<longrightarrow>
           (\<exists>cs. end_headers self = Inr cs \<and>
                 header_values ''Content-Type'' cs = [''application/json'']))"
proof (intro conjI impI)
  assume "endswith p ''.js.br'' \<or> endswith p ''.js.gz''"
  then show "\<exists>cs. end_headers self = Inr cs \<and>
      header_values ''Content-Type'' cs = [''application/javascript'']"
    using calls_js_br [OF assms] calls_js_gz [OF assms]
    by (auto simp: header_values_def)
next
  assume "endswith p ''.wasm.br'' \<or> endswith p ''.wasm.gz''"
  then show "\<exists>cs. end_headers self = Inr cs \<and>
      header_values ''Content-Type'' cs = [''application/wasm'']"
    using calls_wasm_br [OF assms] calls_wasm_gz [OF assms]
    by (auto simp: header_values_def)
next
  assume "endswith p ''.data.br'' \<or> endswith p ''.data.gz''"
  then show "\<exists>cs. end_headers self = Inr cs \<and>
      header_values ''Content-Type'' cs = [''application/octet-stream'']"
    using calls_data_br [OF assms] calls_data_gz [OF assms]
    by (auto simp: header_values_def)
next
  assume "endswith p ''.json.br'' \<or> endswith p ''.json.gz''"
  then show "\<exists>cs. end_headers self = Inr cs \<and>
      header_values ''Content-Type'' cs = [''application/json'']"
    using calls_json_br [OF assms] calls_json_gz [OF assms]
    by (auto simp: header_values_def)
qed

theorem content_type_by_suffix_witness:
  "(\<exists>cs. end_headers (serving ''/app.js.br'' 200) = Inr cs \<and>
         header_values ''Content-Type'' cs = [''application/javascript''])
   \<and> (\<exists>cs. end_headers (serving ''/module.wasm.gz'' 200) = Inr cs \<and>
         header_values ''Content-Type'' cs = [''application/wasm''])
   \<and> (\<exists>cs. end_headers (serving ''/payload.data.br'' 200) = Inr cs \<and>
         header_values ''Content-Type'' cs = [''application/octet-stream''])
   \<and> (\<exists>cs. end_headers (serving ''/catalog.json.gz'' 200) = Inr cs \<and>
         header_values ''Content-Type'' cs = [''application/json''])"
  using content_type_by_suffix [of "serving ''/app.js.br'' 200" "''/app.js.br''"]
    content_type_by_suffix [of "serving ''/module.wasm.gz'' 200" "''/module.wasm.gz''"]
    content_type_by_suffix [of "serving ''/payload.data.br'' 200" "''/payload.data.br''"]
    content_type_by_suffix [of "serving ''/catalog.json.gz'' 200" "''/catalog.json.gz''"]
  by (simp add: serving_def endswith_def)

section \<open>Paths with an encoding suffix and no known type\<close>

text \<open>
  Claim C3. When the path ends with \<^verbatim>\<open>.br\<close> but with none of \<^verbatim>\<open>.js.br\<close>, \<^verbatim>\<open>.wasm.br\<close>,
  \<^verbatim>\<open>.data.br\<close>, \<^verbatim>\<open>.json.br\<close>, the method sends Content-Encoding: br and nothing else before
  it hands over to the parent; likewise for \<^verbatim>\<open>.gz\<close> with gzip. A path ending in \<^verbatim>\<open>.css.br\<close>
  or \<^verbatim>\<open>.css.gz\<close> is such a path: Content-Encoding is sent, Content-Type is not.
\<close>

theorem encoding_without_content_type:
  assumes "path self = Some p"
  shows "(endswith p ''.br'' \<and> \<not> endswith p ''.js.br'' \<and> \<not> endswith p ''.wasm.br'' \<and>
          \<not> endswith p ''.data.br'' \<and> \<not> endswith p ''.json.br'' \<longrightarrow>
            end_headers self = Inr [Send_Header ''Content-Encoding'' ''br'', Super_End_Headers])
       \<and> (endswith p ''.gz'' \<and> \<not> endswith p ''.js.gz'' \<and> \<not> endswith p ''.wasm.gz'' \<and>
          \<not> endswith p ''.data.gz'' \<and> \<not> endswith p ''.json.gz'' \<longrightarrow>
            end_headers self = Inr [Send_Header ''Content-Encoding'' ''gzip'', Super_End_Headers])
       \<and> (endswith p ''.css.br'' \<or> endswith p ''.css.gz'' \<longrightarrow>
            (\<exists>cs. end_headers self = Inr cs \<and> header_values ''Content-Encoding'' cs \<noteq> [] \<and>
                  header_values ''Content-Type'' cs = []))"
proof (intro conjI impI)
  assume "endswith p ''.br'' \<and> \<not> endswith p ''.js.br'' \<and> \<not> endswith p ''.wasm.br'' \<and>
          \<not> endswith p ''.data.br'' \<and> \<not> endswith p ''.json.br''"
  with assms show "end_headers self = Inr [Send_Header ''Content-Encoding'' ''br'', Super_End_Headers]"
    by (simp add: calls_plain_br)
next
  assume "endswith p ''.gz'' \<and> \<not> endswith p ''.js.gz'' \<and> \<not> endswith p ''.wasm.gz'' \<and>
          \<not> endswith p ''.data.gz'' \<and> \<not> endswith p ''.json.gz''"
  with assms show "end_headers self = Inr [Send_Header ''Content-Encoding'' ''gzip'', Super_End_Headers]"
    by (simp add: calls_plain_gz)
next
  assume "endswith p ''.css.br'' \<or> endswith p ''.css.gz''"
  then show "\<exists>cs. end_headers self = Inr cs \<and> header_values ''Content-Encoding'' cs \<noteq> [] \<and>
                  header_values ''Content-Type'' cs = []"
  proof
    assume "endswith p ''.css.br''"
    then obtain pre where "p = pre @ ''.css.br''" by (auto simp: endswith_iff)
    with assms show ?thesis
      by (simp add: end_headers_def endswith_rev header_values_def)
  next
    assume "endswith p ''.css.gz''"
    then obtain pre where "p = pre @ ''.css.gz''" by (auto simp: endswith_iff)
    with assms show ?thesis
      by (simp add: end_headers_def endswith_rev header_values_def)
  qed
qed

theorem encoding_without_content_type_witness:
  "end_headers (serving ''/style.css.br'' 200) =
     Inr [Send_Header ''Content-Encoding'' ''br'', Super_End_Headers]
   \<and> end_headers (serving ''/archive.tar.gz'' 200) =
     Inr [Send_Header ''Content-Encoding'' ''gzip'', Super_End_Headers]
   \<and> (\<exists>cs. end_headers (serving ''/style.css.gz'' 200) = Inr cs \<and>
          header_values ''Content-Encoding'' cs \<noteq> [] \<and> header_values ''Content-Type'' cs = [])"
  using encoding_without_content_type [of "serving ''/style.css.br'' 200" "''/style.css.br''"]
    encoding_without_content_type [of "serving ''/archive.tar.gz'' 200" "''/archive.tar.gz''"]
    encoding_without_content_type [of "serving ''/style.css.gz'' 200" "''/style.css.gz''"]
  by (simp add: serving_def endswith_def header_values_def)

section \<open>Paths with no encoding suffix\<close>

text \<open>
  Claim C4. When the path ends with neither \<^verbatim>\<open>.br\<close> nor \<^verbatim>\<open>.gz\<close>, the method sends no header
  at all, neither Content-Encoding nor Content-Type: its only call is the parent's
  \<^verbatim>\<open>end_headers\<close>, which receives the handler as it was.
\<close>

theorem no_headers_without_suffix:
  assumes "path self = Some p" and "\<not> endswith p ''.br''" and "\<not> endswith p ''.gz''"
  shows "end_headers self = Inr [Super_End_Headers]
       \<and> sent_headers [Super_End_Headers] = []
       \<and> run_calls parent [Super_End_Headers] self = parent self"
  using assms by (simp add: calls_other run_calls_def)

theorem no_headers_without_suffix_witness:
  "end_headers (serving ''/index.html'' 200) = Inr [Super_End_Headers]
   \<and> end_headers (serving ''/data.bin'' 200) = Inr [Super_End_Headers]
   \<and> run_calls id [Super_End_Headers] (serving ''/data.bin'' 200) = serving ''/data.bin'' 200"
  using no_headers_without_suffix [of "serving ''/index.html'' 200" "''/index.html''" id]
    no_headers_without_suffix [of "serving ''/data.bin'' 200" "''/data.bin''" id]
  by (simp add: serving_def endswith_def)

section \<open>The two branches exclude each other\<close>

text \<open>
  Claim C5. No path ends with both \<^verbatim>\<open>.br\<close> and \<^verbatim>\<open>.gz\<close>, and for every path the method sends
  at most one Content-Encoding header, never both br and gzip. A path ending in \<^verbatim>\<open>.br.gz\<close>
  gets only gzip, one ending in \<^verbatim>\<open>.gz.br\<close> only br.
\<close>

theorem at_most_one_content_encoding:
  assumes "path self = Some p"
  shows "\<not> (endswith p ''.br'' \<and> endswith p ''.gz'')
       \<and> (\<exists>cs. end_headers self = Inr cs
             \<and> length (header_values ''Content-Encoding'' cs) \<le> 1
             \<and> \<not> (''br'' \<in> set (header_values ''Content-Encoding'' cs) \<and>
                  ''gzip'' \<in> set (header_values ''Content-Encoding'' cs))
             \<and> (endswith p ''.br.gz'' \<longrightarrow> header_values ''Content-Encoding'' cs = [''gzip''])
             \<and> (endswith p ''.gz.br'' \<longrightarrow> header_values ''Content-Encoding'' cs = [''br'']))"
proof -
  have excl: "\<not> (endswith p ''.br'' \<and> endswith p ''.gz'')"
    using br_not_gz by blast
  have brgz: "endswith p ''.gz''" if "endswith p ''.br.gz''"
    using endswith_trans [of p "''.br''" "''.gz''"] that by simp
  have gzbr: "endswith p ''.br''" if "endswith p ''.gz.br''"
    using endswith_trans [of p "''.gz''" "''.br''"] that by simp
  consider (br) "endswith p ''.br''" | (gz) "\<not> endswith p ''.br''" "endswith p ''.gz''"
    | (other) "\<not> endswith p ''.br''" "\<not> endswith p ''.gz''"
    by blast
  then have "\<exists>cs. end_headers self = Inr cs
             \<and> length (header_values ''Content-Encoding'' cs) \<le> 1
             \<and> \<not> (''br'' \<in> set (header_values ''Content-Encoding'' cs) \<and>
                  ''gzip'' \<in> set (header_values ''Content-Encoding'' cs))
             \<and> (endswith p ''.br.gz'' \<longrightarrow> header_values ''Content-Encoding'' cs = [''gzip''])
             \<and> (endswith p ''.gz.br'' \<longrightarrow> header_values ''Content-Encoding'' cs = [''br''])"
  proof cases
    case br
    then have "\<not> endswith p ''.gz''" by (rule br_not_gz)
    with brgz have "\<not> endswith p ''.br.gz''" by blast
    moreover obtain cs where "end_headers self = Inr cs"
      "header_values ''Content-Encoding'' cs = [''br'']"
      using encoding_br [OF assms br] by blast
    ultimately show ?thesis by simp
  next
    case gz
    with gzbr have "\<not> endswith p ''.gz.br''" by blast
    moreover obtain cs where "end_headers self = Inr cs"
      "header_values ''Content-Encoding'' cs = [''gzip'']"
      using encoding_gz [OF assms gz(2)] by blast
    ultimately show ?thesis by simp
  next
    case other
    with brgz gzbr have "\<not> endswith p ''.br.gz''" "\<not> endswith p ''.gz.br''" by blast+
    moreover have "end_headers self = Inr [Super_End_Headers]"
      using assms other by (rule calls_other)
    ultimately show ?thesis by (simp add: header_values_def)
  qed
  with excl show ?thesis by blast
qed

theorem at_most_one_content_encoding_witness:
  "(\<exists>cs. end_headers (serving ''/bundle.br.gz'' 200) = Inr cs
         \<and> header_values ''Content-Encoding'' cs = [''gzip''])
   \<and> (\<exists>cs. end_headers (serving ''/bundle.gz.br'' 200) = Inr cs
         \<and> header_values ''Content-Encoding'' cs = [''br''])"
proof -
  have a: "path (serving ''/bundle.br.gz'' 200) = Some ''/bundle.br.gz''"
    and b: "path (serving ''/bundle.gz.br'' 200) = Some ''/bundle.gz.br''"
    by (simp_all add: serving_def)
  have ea: "endswith ''/bundle.br.gz'' ''.br.gz''" and eb: "endswith ''/bundle.gz.br'' ''.gz.br''"
    by (simp_all add: endswith_def)
  from at_most_one_content_encoding [OF a] ea at_most_one_content_encoding [OF b] eb
  show ?thesis by blast
qed

section \<open>Handing over to the parent\<close>

text \<open>
  When \<^verbatim>\<open>self.path\<close> is assigned, the method ends with exactly one call of the parent's
  \<^verbatim>\<open>end_headers\<close>, after its own \<^verbatim>\<open>send_header\<close> calls (if any). What the parent receives
  is the handler with the sent headers appended to the queue (nothing is queued for an
  HTTP/0.9 request): the status code, the body and every header queued before are as they
  were.
\<close>

lemma delegates_once_when_path_assigned:
  assumes "path self = Some p"
  shows "\<exists>sends. end_headers self = Inr (sends @ [Super_End_Headers])
          \<and> count_list (sends @ [Super_End_Headers]) Super_End_Headers = 1
          \<and> run_calls parent (sends @ [Super_End_Headers]) self =
              parent (run_calls parent sends self)
          \<and> run_calls parent sends self =
              self\<lparr>headers_buffer := headers_buffer self @
                (if request_version self \<noteq> ''HTTP/0.9'' then sent_headers sends else [])\<rparr>
          \<and> status (run_calls parent sends self) = status self
          \<and> body (run_calls parent sends self) = body self
          \<and> take (length (headers_buffer self)) (headers_buffer (run_calls parent sends self)) =
              headers_buffer self"
proof -
  from end_headers_shape [OF assms] obtain sends
    where calls: "end_headers self = Inr (sends @ [Super_End_Headers])"
      and sends: "list_all content_send sends"
    by blast
  from sends have "Super_End_Headers \<notin> set sends"
    by (rule content_sends_no_super)
  then have once: "count_list (sends @ [Super_End_Headers]) Super_End_Headers = 1"
    by simp
  note run = run_content_sends [OF sends, of parent self]
  have "status (run_calls parent sends self) = status self"
    and "body (run_calls parent sends self) = body self"
    and "take (length (headers_buffer self)) (headers_buffer (run_calls parent sends self)) =
          headers_buffer self"
    by (simp_all add: run)
  with calls once run run_calls_snoc [of parent sends self] show ?thesis
    by blast
qed

text \<open>
  Claim C6. After the header insertions the method is to proceed to the parent's
  \<^verbatim>\<open>end_headers\<close>, exactly once on every execution path. The code does not: when the
  parent rejects a request before it has assigned \<^verbatim>\<open>self.path\<close> (here the 505 answer to
  \<^verbatim>\<open>GET /x.br HTTP/2.0\<close>), the first statement of the method raises \<^verbatim>\<open>AttributeError\<close> and
  the parent's \<^verbatim>\<open>end_headers\<close> is not called at all, where a handler with an assigned path
  reaches it once.
\<close>

theorem parent_not_called_without_path:
  "end_headers (rejecting 505) = Inl AttributeError
   \<and> parent_calls (end_headers (rejecting 505)) = 0
   \<and> parent_calls (end_headers (serving ''/app.js.br'' 200)) = 1"
  by (simp add: end_headers_def rejecting_def serving_def parent_calls_def endswith_def)

section \<open>Error conditions\<close>

text \<open>
  Claim C7. The method is to introduce no error condition of its own. The code has one:
  the read of \<^verbatim>\<open>self.path\<close> in its first statement raises \<^verbatim>\<open>AttributeError\<close> whenever the
  attribute has not been assigned, whatever else the handler holds. This is the case when
  the parent answers a request line of one word with status 400.
\<close>

theorem end_headers_raises_without_path:
  "end_headers (rejecting 400) = Inl AttributeError
   \<and> (\<forall>self. end_headers (self\<lparr>path := None\<rparr>) = Inl AttributeError)"
  by (simp add: end_headers_def rejecting_def)

section \<open>A function of the path alone\<close>

text \<open>
  Claim C8. The calls the method makes are determined by the request path: two handlers
  with the same path, whatever else they hold (another status, other queued headers,
  another protocol version), get the same sequence of calls, hence the same list of
  (header name, value) pairs. The method keeps no state of its own: after its
  \<^verbatim>\<open>send_header\<close> calls have been carried out, a second invocation decides as the first did.
\<close>

theorem end_headers_depends_on_path_only:
  assumes "path h1 = path h2"
  shows "end_headers h1 = end_headers h2
       \<and> (\<forall>sends. end_headers h1 = Inr (sends @ [Super_End_Headers]) \<longrightarrow>
             end_headers (run_calls parent sends h1) = end_headers h1)"
proof (intro conjI allI impI)
  from assms show "end_headers h1 = end_headers h2"
    by (rule end_headers_path_only)
next
  fix sends
  assume calls: "end_headers h1 = Inr (sends @ [Super_End_Headers])"
  then obtain p where p: "path h1 = Some p"
    by (cases "path h1") (simp_all add: end_headers_def)
  from end_headers_shape [OF p] obtain sends'
    where "end_headers h1 = Inr (sends' @ [Super_End_Headers])"
      and "list_all content_send sends'"
    by blast
  with calls have "list_all content_send sends" by simp
  then have "path (run_calls parent sends h1) = path h1"
    by (simp add: run_content_sends)
  then show "end_headers (run_calls parent sends h1) = end_headers h1"
    by (rule end_headers_path_only)
qed

theorem end_headers_depends_on_path_only_witness:
  "end_headers (serving ''/app.js.br'' 200) =
     end_headers
       \<lparr>path = Some ''/app.js.br'', request_version = ''HTTP/1.0'', close_connection = True,
        status = 304, headers_buffer = [], body = ''x''\<rparr>
   \<and> end_headers
       (run_calls id
          [Send_Header ''Content-Encoding'' ''br'',
           Send_Header ''Content-Type'' ''application/javascript'']
          (serving ''/app.js.br'' 200)) =
     end_headers (serving ''/app.js.br'' 200)"
proof -
  have same: "path (serving ''/app.js.br'' 200) =
      path \<lparr>path = Some ''/app.js.br'', request_version = ''HTTP/1.0'', close_connection = True,
        status = 304, headers_buffer = [], body = ''x''\<rparr>"
    by (simp add: serving_def)
  have calls: "end_headers (serving ''/app.js.br'' 200) =
      Inr ([Send_Header ''Content-Encoding'' ''br'',
            Send_Header ''Content-Type'' ''application/javascript''] @ [Super_End_Headers])"
    by (simp add: end_headers_def serving_def endswith_def)
  from end_headers_depends_on_path_only [OF same, of id] calls show ?thesis
    by blast
qed

section \<open>Query strings and fragments\<close>

text \<open>
  Claim C9. The suffix tests read the request target as it stands, query string and
  fragment included. A target made of a file name, a \<^verbatim>\<open>?\<close> or \<^verbatim>\<open>#\<close> and a remainder that
  does not itself end in \<^verbatim>\<open>.br\<close> or \<^verbatim>\<open>.gz\<close> gets no header, whatever the file name is:
  for \<^verbatim>\<open>/app.js.br?v=1\<close> neither Content-Encoding nor Content-Type is sent.
\<close>

theorem no_headers_with_query_string:
  assumes "path self = Some (file @ sep # rest)"
    and "sep = CHR ''?'' \<or> sep = CHR ''#''"
    and "\<not> endswith rest ''.br''" and "\<not> endswith rest ''.gz''"
  shows "end_headers self = Inr [Super_End_Headers]"
proof -
  from assms(2,3,4) have "\<not> endswith (file @ sep # rest) ''.br''"
    and "\<not> endswith (file @ sep # rest) ''.gz''"
    by (cases rest; cases "tl rest"; cases "tl (tl rest)"; auto simp: endswith_def)+
  with assms(1) show ?thesis
    by (simp add: calls_other)
qed

theorem no_headers_with_query_string_witness:
  "end_headers (serving ''/app.js.br?v=1'' 200) = Inr [Super_End_Headers]
   \<and> end_headers (serving ''/app.js.gz#top'' 200) = Inr [Super_End_Headers]"
  using no_headers_with_query_string [of "serving ''/app.js.br?v=1'' 200" "''/app.js.br''" "CHR ''?''" "''v=1''"]
    no_headers_with_query_string [of "serving ''/app.js.gz#top'' 200" "''/app.js.gz''" "CHR ''#''" "''top''"]
  by (simp add: serving_def endswith_def)

section \<open>Error responses\<close>



end
